theory Spec2Isabelle
  imports Main
begin

section \<open>Python values shared by both programs\<close>

text \<open>
  A Python \<open>str\<close> is modelled as a HOL \<open>string\<close>, one \<open>char\<close> per code point; the model
  therefore covers the code points below 256. \<open>str(n)\<close> of a non-negative integer is its
  decimal rendering.
\<close>

fun str_nat :: "nat \<Rightarrow> string" where
  "str_nat n =
     (if n < 10 then [char_of (48 + n)]
      else str_nat (n div 10) @ [char_of (48 + n mod 10)])"

declare str_nat.simps [simp del]

text \<open>
  \<open>str.lower()\<close> on the code points below 256: the ASCII capitals and the Latin-1
  capitals U+00C0..U+00DE (U+00D7, the multiplication sign, has no case) move up by 32;
  every other code point of that range is its own lower case. On that range the method
  works character by character and keeps the length. Above it, it does neither (U+0130
  becomes two code points); such strings are not values of the type \<open>string\<close>, and nothing
  stated here about the length of a lower-cased string extends to them.
\<close>

definition lower_char :: "char \<Rightarrow> char" where
  "lower_char c =
     (let n = (of_char c :: nat)
      in if (65 \<le> n \<and> n \<le> 90) \<or> (192 \<le> n \<and> n \<le> 222 \<and> n \<noteq> 215)
         then char_of (n + 32) else c)"

definition lower :: "string \<Rightarrow> string" where
  "lower s = map lower_char s"

text \<open>\<open>s.replace(old, new)\<close> where \<open>old\<close> and \<open>new\<close> are one character each.\<close>

definition replace_char :: "char \<Rightarrow> char \<Rightarrow> string \<Rightarrow> string" where
  "replace_char old new s = map (\<lambda>c. if c = old then new else c) s"

text \<open>\<open>s.endswith(suf)\<close> and the substring test \<open>sub in s\<close>.\<close>

definition endswith :: "string \<Rightarrow> string \<Rightarrow> bool" where
  "endswith s suf = (length suf \<le> length s \<and> drop (length s - length suf) s = suf)"

fun contains :: "string \<Rightarrow> string \<Rightarrow> bool" where
  "contains sub [] = (sub = [])"
| "contains sub (c # cs) = (take (length sub) (c # cs) = sub \<or> contains sub cs)"

text \<open>
  The values \<open>json.loads\<close> produces. A dict is an association list looked up with
  \<open>map_of\<close>, each key entered once as in the dict; a float is carried as its literal
  text, since no code here inspects it.
\<close>

datatype json =
    JNull
  | JBool bool
  | JInt int
  | JFloat string
  | JStr string
  | JArr "json list"
  | JObj "(string \<times> json) list"

text \<open>
  A raised exception of class \<open>Exception\<close>, by the only distinction the handlers make:
  its class is \<open>json.JSONDecodeError\<close> or it is not. The argument is \<open>str(e)\<close>.
\<close>

datatype py_exn = JSONDecodeError string | OtherError string

section \<open>The worker: \<open>docker/geojson-processor/app.py\<close>\<close>

subsection \<open>\<open>GeoJSONProcessor.validate_geojson\<close>\<close>

text \<open>
  The body of the loop over \<open>enumerate(features)\<close>: \<open>Some\<close> reason when feature \<open>i\<close> makes
  the function return, \<open>None\<close> when the loop goes on. \<open>feature.get('type') != 'Feature'\<close>
  is true for an absent key (\<open>None\<close>) and for every value that is not that string.
\<close>

definition check_feature :: "nat \<Rightarrow> json \<Rightarrow> string option" where
  "check_feature i feature =
     (case feature of
        JObj d \<Rightarrow>
          if map_of d ''type'' \<noteq> Some (JStr ''Feature'')
          then Some (''Feature '' @ str_nat i @ '' type is not '' @ [CHR 0x27] @ ''Feature'' @ [CHR 0x27])
          else if map_of d ''geometry'' = None
          then Some (''Feature '' @ str_nat i @ '' missing geometry'')
          else None
      | _ \<Rightarrow> Some (''Feature '' @ str_nat i @ '' is not an object''))"

fun validate_features :: "nat \<Rightarrow> json list \<Rightarrow> bool \<times> string" where
  "validate_features i [] = (True, ''Valid GeoJSON'')"
| "validate_features i (feature # rest) =
     (case check_feature i feature of
        Some reason \<Rightarrow> (False, reason)
      | None \<Rightarrow> validate_features (Suc i) rest)"

text \<open>
  The function's \<open>except Exception\<close> branch is not a branch of the model: \<open>isinstance\<close>,
  \<open>dict.get\<close>, \<open>in\<close>, indexing a present key, \<open>len\<close> and \<open>enumerate\<close> raise nothing on
  the values \<open>json.loads\<close> returns.
\<close>

definition validate_geojson :: "json \<Rightarrow> bool \<times> string" where
  "validate_geojson geojson_data =
     (case geojson_data of
        JObj d \<Rightarrow>
          if map_of d ''type'' \<noteq> Some (JStr ''FeatureCollection'')
          then (False, ''Must be a FeatureCollection'')
          else (case map_of d ''features'' of
                  None \<Rightarrow> (False, ''No features found'')
                | Some (JArr features) \<Rightarrow>
                    if length features = 0 then (False, ''No features in collection'')
                    else validate_features 0 features
                | Some _ \<Rightarrow> (False, ''Features must be a list''))
      | _ \<Rightarrow> (False, ''GeoJSON must be a JSON object''))"

subsection \<open>The destination table name\<close>

text \<open>
  Lines 128 and 129 of \<open>process_geojson_file\<close>: three \<open>replace\<close> calls in the source's
  order, the prefix, \<open>lower()\<close>, and the slice \<open>[:63]\<close>.
\<close>

definition table_name_of :: "string \<Rightarrow> string" where
  "table_name_of k =
     take 63 (lower (''geojson_'' @
       replace_char CHR ''-'' CHR ''_''
         (replace_char CHR ''.'' CHR ''_''
           (replace_char CHR ''/'' CHR ''_'' k))))"

subsection \<open>The world of one \<open>process_geojson_file\<close> call\<close>

text \<open>
  Assignment under a name in an ordered mapping: a name already there keeps its place
  and gets the new value, a new name goes to the end. Lookup is \<open>map_of\<close>.
\<close>

fun put :: "'k \<Rightarrow> 'v \<Rightarrow> ('k \<times> 'v) list \<Rightarrow> ('k \<times> 'v) list" where
  "put k v [] = [(k, v)]"
| "put k v ((k', w) # r) = (if k' = k then (k', v) # r else (k', w) # put k v r)"

text \<open>
  A GeoDataFrame is a list of rows, a row an ordered mapping from column name to cell.
  Assigning a scalar to a column, \<open>gdf[col] = v\<close>, sets that column in every row: an
  existing column is overwritten in place, a new one is added at the end.
\<close>

datatype cell = CJson json | CStr string | CTime nat

type_synonym row = "(string \<times> cell) list"
type_synonym gdf = "row list"

definition set_column :: "string \<Rightarrow> cell \<Rightarrow> gdf \<Rightarrow> gdf" where
  "set_column col v g = map (put col v) g"

text \<open>
  What the libraries answer during one call. Each entry is the outcome of one external
  call of the source, an exception (\<open>Inl\<close>, \<open>Some\<close>) or a value:
  \<^item> \<open>get_object\<close>: \<open>s3_client.get_object(Bucket, Key)\<close>, \<open>read()\<close> and \<open>decode('utf-8')\<close>;
  \<^item> \<open>json_loads\<close>: \<open>json.loads\<close> of the downloaded text;
  \<^item> \<open>read_file\<close>: \<open>gpd.read_file\<close> of the URL, a read of its own;
  \<^item> \<open>utcnow\<close>, \<open>uuid4\<close>: the values \<open>datetime.utcnow()\<close> and \<open>str(uuid.uuid4())\<close> return;
  \<^item> \<open>secret_engine\<close>: \<open>get_secret_value\<close>, \<open>json.loads\<close> of the secret and
    \<open>create_engine\<close>, all before \<open>self.db_engine\<close> is assigned;
  \<^item> \<open>ensure_postgis\<close>: connecting and creating the extension, after the assignment;
  \<^item> \<open>to_postgis_exn\<close>: whether the write of the given rows to the given table raises.
\<close>

record env =
  get_object :: "string \<Rightarrow> string \<Rightarrow> py_exn + string"
  json_loads :: "string \<Rightarrow> py_exn + json"
  read_file :: "string \<Rightarrow> py_exn + gdf"
  utcnow :: nat
  uuid4 :: string
  secret_engine :: "py_exn option"
  ensure_postgis :: "py_exn option"
  to_postgis_exn :: "string \<Rightarrow> gdf \<Rightarrow> py_exn option"

text \<open>The external calls a run makes, recorded in order.\<close>

datatype effect =
    GetObject string string
  | ReadFile string
  | UtcNow
  | Uuid4
  | GetSecret
  | EnsurePostgis
  | ToPostgis string

text \<open>
  The state that outlives a call: \<open>self.db_engine\<close> (set or not), the tables of the
  database by name, and the trace of external calls made so far.
\<close>

record pstate =
  db_engine :: bool
  tables :: "(string \<times> gdf) list"
  trace :: "effect list"

definition emit :: "effect \<Rightarrow> pstate \<Rightarrow> pstate" where
  "emit ev s = s\<lparr>trace := trace s @ [ev]\<rparr>"

subsection \<open>\<open>GeoJSONProcessor.get_db_connection\<close>\<close>

text \<open>
  \<open>None\<close> is the engine returned, \<open>Some x\<close> the exception re-raised by the function's
  \<open>except\<close> branch. The engine is cached before the PostGIS statement runs, so a failure
  of that statement leaves it cached.
\<close>

definition get_db_connection :: "env \<Rightarrow> pstate \<Rightarrow> pstate \<times> py_exn option" where
  "get_db_connection e s =
     (if db_engine s then (s, None)
      else
        let s1 = emit GetSecret s
        in case secret_engine e of
             Some x \<Rightarrow> (s1, Some x)
           | None \<Rightarrow>
               let s2 = emit EnsurePostgis (s1\<lparr>db_engine := True\<rparr>)
               in (s2, ensure_postgis e))"

subsection \<open>\<open>gdf.to_postgis(table_name, engine, if_exists='replace', ...)\<close>\<close>

text \<open>
  The library call with \<open>if_exists='replace'\<close>: the table is dropped and created again
  from the frame, so after a call that returns, the table holds the rows of the frame
  and nothing else. The library writes within one transaction; a call that raises is
  modelled as leaving the tables as they were.
\<close>

definition to_postgis :: "env \<Rightarrow> pstate \<Rightarrow> string \<Rightarrow> gdf \<Rightarrow> pstate \<times> py_exn option" where
  "to_postgis e s table_name g =
     (let s1 = emit (ToPostgis table_name) s
      in case to_postgis_exn e table_name g of
           Some x \<Rightarrow> (s1, Some x)
         | None \<Rightarrow> (s1\<lparr>tables := put table_name g (tables s1)\<rparr>, None))"

subsection \<open>\<open>GeoJSONProcessor.process_geojson_file\<close>\<close>

text \<open>The two \<open>except\<close> branches at the end of the function.\<close>

definition on_exception :: "py_exn \<Rightarrow> bool \<times> string" where
  "on_exception x =
     (case x of
        JSONDecodeError m \<Rightarrow> (False, ''Invalid JSON format: '' @ m)
      | OtherError m \<Rightarrow> (False, ''Error processing file: '' @ m))"

definition s3_url :: "string \<Rightarrow> string \<Rightarrow> string" where
  "s3_url bucket k = ''s3://'' @ bucket @ ''/'' @ k"

text \<open>Lines 120 to 122: the three metadata columns, each assigned one scalar.\<close>

definition add_metadata :: "env \<Rightarrow> string \<Rightarrow> gdf \<Rightarrow> gdf" where
  "add_metadata e k g =
     set_column ''processing_id'' (CStr (uuid4 e))
       (set_column ''processed_at'' (CTime (utcnow e))
         (set_column ''file_source'' (CStr k) g))"

definition process_geojson_file ::
  "env \<Rightarrow> pstate \<Rightarrow> string \<Rightarrow> string \<Rightarrow> pstate \<times> (bool \<times> string)" where
  "process_geojson_file e s bucket k =
     (let s1 = emit (GetObject bucket k) s
      in case get_object e bucket k of
           Inl x \<Rightarrow> (s1, on_exception x)
         | Inr file_content \<Rightarrow>
      (case json_loads e file_content of
           Inl x \<Rightarrow> (s1, on_exception x)
         | Inr geojson_data \<Rightarrow>
      (case validate_geojson geojson_data of
           (False, message) \<Rightarrow> (s1, (False, message))
         | (True, message) \<Rightarrow>
      (let s2 = emit (ReadFile (s3_url bucket k)) s1
       in case read_file e (s3_url bucket k) of
            Inl x \<Rightarrow> (s2, on_exception x)
          | Inr g0 \<Rightarrow>
      (let g = add_metadata e k g0;
           s3 = emit Uuid4 (emit UtcNow s2)
       in case get_db_connection e s3 of
            (s4, Some x) \<Rightarrow> (s4, on_exception x)
          | (s4, None) \<Rightarrow>
      (case to_postgis e s4 (table_name_of k) g of
            (s5, Some x) \<Rightarrow> (s5, on_exception x)
          | (s5, None) \<Rightarrow>
              (s5, (True, ''Processed '' @ str_nat (length g) @ '' features''))))))))"

section \<open>The dispatcher: \<open>terraform/lambda/s3_processor.py\<close>\<close>

text \<open>
  One record of the S3 event: \<open>record['s3']['bucket']['name']\<close> and the still encoded
  \<open>record['s3']['object']['key']\<close>. The event is taken as well-formed: every record
  has both entries.
\<close>

record s3_record =
  bucket_name :: string
  object_key :: string

text \<open>
  The answer of \<open>ecs_client.run_task\<close>: the \<open>repr\<close> of each entry of \<open>failures\<close> and the
  \<open>taskArn\<close> of each entry of \<open>tasks\<close>.
\<close>

record ecs_response =
  failures :: "string list"
  tasks :: "string list"

text \<open>
  The surroundings of one handler run: \<open>os.environ\<close>, the library function
  \<open>urllib.parse.unquote_plus\<close>, the outcome of \<open>ecs_client.run_task\<close> (the text of the
  exception it raises, or its response) given the launches attempted before it in this
  run and the bucket and key of this one, and \<open>context.aws_request_id\<close>.
\<close>

record lambda_env =
  environ :: "string \<rightharpoonup> string"
  unquote_plus :: "string \<Rightarrow> string"
  run_task :: "(string \<times> string) list \<Rightarrow> string \<Rightarrow> string \<Rightarrow> string + ecs_response"
  aws_request_id :: string

text \<open>\<open>os.environ[name]\<close>: a missing name raises \<open>KeyError\<close>, whose \<open>str\<close> is the quoted name.\<close>

definition environ_get :: "lambda_env \<Rightarrow> string \<Rightarrow> string + string" where
  "environ_get le name =
     (case environ le name of
        None \<Rightarrow> Inl ([CHR 0x27] @ name @ [CHR 0x27])
      | Some v \<Rightarrow> Inr v)"

text \<open>\<open>str\<close> of a list of values whose \<open>repr\<close> is given.\<close>

fun join_comma :: "string list \<Rightarrow> string" where
  "join_comma [] = []"
| "join_comma [x] = x"
| "join_comma (x # y # ys) = x @ '', '' @ join_comma (y # ys)"

definition str_list :: "string list \<Rightarrow> string" where
  "str_list xs = ''['' @ join_comma xs @ '']''"

subsection \<open>\<open>run_ecs_task\<close>\<close>

text \<open>
  The argument \<open>attempted\<close> holds the (bucket, key) pairs \<open>ecs_client.run_task\<close> was called
  with so far; the call of this function is appended once the four environment
  variables have been read. \<open>Inl\<close> is the text of the exception raised.
\<close>

definition run_ecs_task ::
  "lambda_env \<Rightarrow> (string \<times> string) list \<Rightarrow> string \<Rightarrow> string \<Rightarrow>
     (string \<times> string) list \<times> (string + ecs_response)" where
  "run_ecs_task le attempted bucket k =
     (case environ_get le ''ECS_CLUSTER_NAME'' of
        Inl m \<Rightarrow> (attempted, Inl m)
      | Inr cluster_name \<Rightarrow>
     (case environ_get le ''ECS_TASK_DEFINITION'' of
        Inl m \<Rightarrow> (attempted, Inl m)
      | Inr task_definition \<Rightarrow>
     (case environ_get le ''ECS_SUBNETS'' of
        Inl m \<Rightarrow> (attempted, Inl m)
      | Inr subnets \<Rightarrow>
     (case environ_get le ''ECS_SECURITY_GROUPS'' of
        Inl m \<Rightarrow> (attempted, Inl m)
      | Inr security_groups \<Rightarrow>
     (let attempted' = attempted @ [(bucket, k)]
      in case run_task le attempted bucket k of
           Inl m \<Rightarrow> (attempted', Inl m)
         | Inr response \<Rightarrow>
             if failures response \<noteq> []
             then (attempted', Inl (''ECS task failed to start: '' @ str_list (failures response)))
             else (attempted', Inr response))))))"

subsection \<open>\<open>handler\<close>\<close>

text \<open>The test of line 36.\<close>

definition is_geojson_key :: "string \<Rightarrow> bool" where
  "is_geojson_key k = endswith (lower k) ''.geojson''"

text \<open>
  The \<open>for\<close> loop of the handler, inside its \<open>try\<close>: \<open>None\<close> when the loop ran to its end,
  \<open>Some m\<close> when an exception with text \<open>m\<close> left it.
\<close>

fun handler_loop ::
  "lambda_env \<Rightarrow> (string \<times> string) list \<Rightarrow> s3_record list \<Rightarrow>
     (string \<times> string) list \<times> string option" where
  "handler_loop le attempted [] = (attempted, None)"
| "handler_loop le attempted (record # rest) =
     (let bucket = bucket_name record;
          k = unquote_plus le (object_key record)
      in if \<not> is_geojson_key k then handler_loop le attempted rest
         else case run_ecs_task le attempted bucket k of
                (attempted', Inl m) \<Rightarrow> (attempted', Some m)
              | (attempted', Inr response) \<Rightarrow> handler_loop le attempted' rest)"

text \<open>
  The dict the handler returns; \<open>body\<close> is kept as the dict given to \<open>json.dumps\<close>, with
  its first entry under \<open>message\<close> or under \<open>error\<close>.
\<close>

datatype body = MessageBody string string | ErrorBody string string

record lambda_response =
  statusCode :: nat
  body :: body

definition handler ::
  "lambda_env \<Rightarrow> s3_record list \<Rightarrow> (string \<times> string) list \<times> lambda_response" where
  "handler le records =
     (case handler_loop le [] records of
        (attempted, None) \<Rightarrow>
          (attempted,
           \<lparr>statusCode = 200,
            body = MessageBody
              (''Successfully processed '' @ str_nat (length records) @ '' files'')
              (aws_request_id le)\<rparr>)
      | (attempted, Some m) \<Rightarrow>
          (attempted, \<lparr>statusCode = 500, body = ErrorBody m (aws_request_id le)\<rparr>))"

subsection \<open>\<open>validate_geojson_key\<close>\<close>

definition system_folders :: "string list" where
  "system_folders = [''_system'', ''.tmp'', ''logs'', ''backups'']"

fun in_system_folder :: "string list \<Rightarrow> string \<Rightarrow> bool \<times> string" where
  "in_system_folder [] k = (True, ''Valid GeoJSON file'')"
| "in_system_folder (folder # rest) k =
     (if contains folder (lower k) then (False, ''File in system folder: '' @ folder)
      else in_system_folder rest k)"

definition validate_geojson_key :: "string \<Rightarrow> bool \<times> string" where
  "validate_geojson_key k =
     (if \<not> endswith (lower k) ''.geojson'' then (False, ''Not a GeoJSON file'')
      else in_system_folder system_folders k)"

section \<open>The specification's wording, for comparison with the code\<close>

subsection \<open>The Validator's list of violations\<close>

text \<open>
  Reading a document as the specification speaks of it: the value under a key of an
  object (nothing for any other value), whether a value is an object, and the features
  of a document (none when there is no list under that key).
\<close>

fun obj_get :: "json \<Rightarrow> string \<Rightarrow> json option" where
  "obj_get (JObj d) k = map_of d k"
| "obj_get _ k = None"

fun is_object :: "json \<Rightarrow> bool" where
  "is_object (JObj d) = True"
| "is_object _ = False"

definition spec_features :: "json \<Rightarrow> json list" where
  "spec_features doc = (case obj_get doc ''features'' of Some (JArr fs) \<Rightarrow> fs | _ \<Rightarrow> [])"

definition spec_features_is_list :: "json \<Rightarrow> bool" where
  "spec_features_is_list doc = (case obj_get doc ''features'' of Some (JArr fs) \<Rightarrow> True | _ \<Rightarrow> False)"

text \<open>
  The eight violations of the specification, in its order: not an object; type other
  than "FeatureCollection"; features key absent; features not a list; features empty; an
  element that is not an object; an element whose type is not "Feature"; an element
  without a geometry key.
\<close>

definition spec_violation :: "json \<Rightarrow> bool" where
  "spec_violation doc =
     (\<not> is_object doc
      \<or> obj_get doc ''type'' \<noteq> Some (JStr ''FeatureCollection'')
      \<or> obj_get doc ''features'' = None
      \<or> \<not> spec_features_is_list doc
      \<or> spec_features doc = []
      \<or> list_ex (\<lambda>f. \<not> is_object f) (spec_features doc)
      \<or> list_ex (\<lambda>f. obj_get f ''type'' \<noteq> Some (JStr ''Feature'')) (spec_features doc)
      \<or> list_ex (\<lambda>f. obj_get f ''geometry'' = None) (spec_features doc))"

text \<open>
  A feature in order: an object of type "Feature" with a geometry key, whatever value
  stands under it. For a feature not in order, the reason reported for index \<open>i\<close>.
\<close>

definition spec_feature_ok :: "json \<Rightarrow> bool" where
  "spec_feature_ok f =
     (is_object f \<and> obj_get f ''type'' = Some (JStr ''Feature'') \<and> obj_get f ''geometry'' \<noteq> None)"

definition feature_reason :: "nat \<Rightarrow> json \<Rightarrow> string" where
  "feature_reason i f =
     (if \<not> is_object f then ''Feature '' @ str_nat i @ '' is not an object''
      else if obj_get f ''type'' \<noteq> Some (JStr ''Feature'')
      then ''Feature '' @ str_nat i @ '' type is not '' @ [CHR 0x27] @ ''Feature'' @ [CHR 0x27]
      else ''Feature '' @ str_nat i @ '' missing geometry'')"

subsection \<open>The external calls of a run that succeeds\<close>

text \<open>
  In order: the download, the second read, the clock, the identifier, the connection
  when no engine is cached yet, the write.
\<close>

definition success_trace :: "pstate \<Rightarrow> string \<Rightarrow> string \<Rightarrow> effect list" where
  "success_trace s bucket k =
     [GetObject bucket k, ReadFile (s3_url bucket k), UtcNow, Uuid4]
     @ (if db_engine s then [] else [GetSecret, EnsurePostgis])
     @ [ToPostgis (table_name_of k)]"

subsection \<open>The keys of a batch that pass the handler's filter\<close>

text \<open>In batch order, each with its bucket: the decoded keys that end in \<open>.geojson\<close>.\<close>

definition qualifying :: "lambda_env \<Rightarrow> s3_record list \<Rightarrow> (string \<times> string) list" where
  "qualifying le records =
     map (\<lambda>r. (bucket_name r, unquote_plus le (object_key r)))
       (filter (\<lambda>r. is_geojson_key (unquote_plus le (object_key r))) records)"

subsection \<open>The Table-Name Deriver\<close>

text \<open>
  Lower-casing by the alphabet: a capital letter is replaced by the small letter that
  stands at its place in the list of small letters; any other character stays. The
  capitals are the 26 of ASCII and the 30 of Latin-1.
\<close>

definition spec_capitals :: string where
  "spec_capitals =
     ''ABCDEFGHIJKLMNOPQRSTUVWXYZ'' @ map char_of [192..<215::nat] @ map char_of [216..<223::nat]"

definition spec_smalls :: string where
  "spec_smalls =
     ''abcdefghijklmnopqrstuvwxyz'' @ map char_of [224..<247::nat] @ map char_of [248..<255::nat]"

definition spec_lower_case :: "char \<Rightarrow> char" where
  "spec_lower_case c =
     (case map_of (zip spec_capitals spec_smalls) c of Some l \<Rightarrow> l | None \<Rightarrow> c)"

text \<open>The three separator characters.\<close>

definition spec_separators :: string where
  "spec_separators = ''/.-''"

text \<open>
  The derivation in the words of the specification: every separator character becomes
  an underscore, the namespace prefix is put in front, the result is lower-cased and
  cut to the identifier limit.
\<close>

definition spec_deriveTableName :: "string \<Rightarrow> string" where
  "spec_deriveTableName k =
     take 63 (map spec_lower_case
       (''geojson_'' @ map (\<lambda>c. if c \<in> set spec_separators then CHR ''_'' else c) k))"

section \<open>Concrete inputs\<close>

definition feature_null_geometry :: json where
  "feature_null_geometry = JObj [(''type'', JStr ''Feature''), (''geometry'', JNull)]"

definition doc_null_geometry :: json where
  "doc_null_geometry =
     JObj [(''type'', JStr ''FeatureCollection''), (''features'', JArr [feature_null_geometry])]"

definition features_fourth_bad :: "json list" where
  "features_fourth_bad =
     [feature_null_geometry, feature_null_geometry, feature_null_geometry,
      JObj [(''type'', JStr ''Feature''), (''properties'', JObj [])],
      JInt 7]"

definition doc_fourth_bad :: json where
  "doc_fourth_bad =
     JObj [(''type'', JStr ''FeatureCollection''), (''features'', JArr features_fourth_bad)]"

text \<open>
  Scenario A of the specification: one point feature under the key
  \<open>region/a.geojson\<close>, and the frame \<open>gpd.read_file\<close> makes of it.
\<close>

definition doc_scenario_a :: json where
  "doc_scenario_a =
     JObj [(''type'', JStr ''FeatureCollection''),
           (''features'', JArr [JObj [(''type'', JStr ''Feature''),
              (''geometry'', JObj [(''type'', JStr ''Point''), (''coordinates'', JArr [JInt 1, JInt 2])]),
              (''properties'', JObj [(''name'', JStr ''x'')])]])]"

definition gdf_scenario_a :: gdf where
  "gdf_scenario_a =
     [[(''name'', CJson (JStr ''x'')),
       (''geometry'', CJson (JObj [(''type'', JStr ''Point''), (''coordinates'', JArr [JInt 1, JInt 2])]))]]"

definition env_a :: env where
  "env_a =
     \<lparr>get_object = (\<lambda>bucket k. Inr ''scenario A''),
      json_loads = (\<lambda>text. Inr doc_scenario_a),
      read_file = (\<lambda>url. Inr gdf_scenario_a),
      utcnow = 1000,
      uuid4 = ''id-1'',
      secret_engine = None,
      ensure_postgis = None,
      to_postgis_exn = (\<lambda>table_name g. None)\<rparr>"

text \<open>A later run over the same source: another time, another identifier.\<close>

definition env_a_again :: env where
  "env_a_again = env_a\<lparr>utcnow := 2000, uuid4 := ''id-2''\<rparr>"

text \<open>The same run with a destination store that refuses the write.\<close>

definition env_store_down :: env where
  "env_store_down = env_a\<lparr>to_postgis_exn := (\<lambda>table_name g. Some (OtherError ''connection refused''))\<rparr>"

text \<open>Scenario B: an empty collection.\<close>

definition doc_scenario_b :: json where
  "doc_scenario_b = JObj [(''type'', JStr ''FeatureCollection''), (''features'', JArr [])]"

definition env_b :: env where
  "env_b = env_a\<lparr>json_loads := (\<lambda>text. Inr doc_scenario_b)\<rparr>"

text \<open>
  An object replaced between the two reads: the download sees the one feature of
  scenario A, \<open>gpd.read_file\<close> sees two other rows.
\<close>

definition gdf_replaced :: gdf where
  "gdf_replaced =
     [[(''name'', CJson (JStr ''y'')), (''geometry'', CJson JNull)],
      [(''name'', CJson (JStr ''z'')), (''geometry'', CJson JNull)]]"

definition env_replaced :: env where
  "env_replaced = env_a\<lparr>read_file := (\<lambda>url. Inr gdf_replaced)\<rparr>"

text \<open>A key of 70 characters with capitals and all three separators.\<close>

definition long_key :: string where
  "long_key = ''Data-Sets/Region.North/2024-06-30/Parcels-And-Boundaries.Final.GeoJSON''"

definition state0 :: pstate where
  "state0 = \<lparr>db_engine = False, tables = [], trace = []\<rparr>"

text \<open>A handler run in which every launch is acknowledged.\<close>

definition ecs_environ :: "string \<rightharpoonup> string" where
  "ecs_environ =
     [''ECS_CLUSTER_NAME'' \<mapsto> ''cluster'', ''ECS_TASK_DEFINITION'' \<mapsto> ''task-def'',
      ''ECS_SUBNETS'' \<mapsto> ''subnet-1,subnet-2'', ''ECS_SECURITY_GROUPS'' \<mapsto> ''sg-1'']"

definition lambda_env_ok :: lambda_env where
  "lambda_env_ok =
     \<lparr>environ = ecs_environ,
      unquote_plus = (\<lambda>k. k),
      run_task = (\<lambda>attempted bucket k. Inr \<lparr>failures = [], tasks = [''arn-1'']\<rparr>),
      aws_request_id = ''req-1''\<rparr>"

text \<open>A run in which ECS answers the first launch with a failure and would accept the rest.\<close>

definition lambda_env_first_fails :: lambda_env where
  "lambda_env_first_fails =
     lambda_env_ok\<lparr>run_task := (\<lambda>attempted bucket k.
        if attempted = [] then Inr \<lparr>failures = [''{'reason': 'RESOURCE:MEMORY'}''], tasks = []\<rparr>
        else Inr \<lparr>failures = [], tasks = [''arn-1'']\<rparr>)\<rparr>"

definition rec_a :: s3_record where
  "rec_a = \<lparr>bucket_name = ''bkt'', object_key = ''a.geojson''\<rparr>"

definition rec_b :: s3_record where
  "rec_b = \<lparr>bucket_name = ''bkt'', object_key = ''b.geojson''\<rparr>"

definition rec_c :: s3_record where
  "rec_c = \<lparr>bucket_name = ''bkt'', object_key = ''c.geojson''\<rparr>"

definition rec_txt :: s3_record where
  "rec_txt = \<lparr>bucket_name = ''bkt'', object_key = ''notes.txt''\<rparr>"

definition rec_logs :: s3_record where
  "rec_logs = \<lparr>bucket_name = ''bkt'', object_key = ''logs/a.geojson''\<rparr>"

section \<open>Properties of the worker\<close>

subsection \<open>The Validator\<close>

lemma check_feature_None: "check_feature i f = None \<longleftrightarrow> spec_feature_ok f"
  by (cases f) (auto simp: check_feature_def spec_feature_ok_def)

lemma check_feature_Some: "check_feature i f = Some m \<Longrightarrow> \<not> spec_feature_ok f \<and> m = feature_reason i f"
  by (cases f) (auto simp: check_feature_def spec_feature_ok_def feature_reason_def split: if_splits)

lemma validate_features_True:
  "fst (validate_features n fs) \<longleftrightarrow> (\<forall>f \<in> set fs. spec_feature_ok f)"
proof (induction fs arbitrary: n)
  case Nil
  show ?case by simp
next
  case (Cons f fs)
  show ?case
  proof (cases "check_feature n f")
    case None
    then have "spec_feature_ok f" by (simp add: check_feature_None)
    then show ?thesis using None Cons.IH [of "Suc n"] by simp
  next
    case (Some m)
    then show ?thesis using check_feature_Some [OF Some] by simp
  qed
qed

lemma validate_features_msg_True:
  "fst (validate_features n fs) \<Longrightarrow> validate_features n fs = (True, ''Valid GeoJSON'')"
  by (induction fs arbitrary: n) (auto split: option.splits)

lemma validate_features_first:
  "validate_features n fs = (False, m) \<Longrightarrow>
   \<exists>i < length fs. (\<forall>j < i. spec_feature_ok (fs ! j)) \<and> \<not> spec_feature_ok (fs ! i)
      \<and> m = feature_reason (n + i) (fs ! i)"
proof (induction fs arbitrary: n)
  case Nil
  then show ?case by simp
next
  case (Cons f fs)
  show ?case
  proof (cases "check_feature n f")
    case None
    with Cons.prems have "validate_features (Suc n) fs = (False, m)" by simp
    from Cons.IH [OF this] obtain i where i: "i < length fs"
      "\<forall>j < i. spec_feature_ok (fs ! j)" "\<not> spec_feature_ok (fs ! i)"
      "m = feature_reason (Suc n + i) (fs ! i)" by blast
    from None have ok: "spec_feature_ok f" by (simp add: check_feature_None)
    have "\<forall>j < Suc i. spec_feature_ok ((f # fs) ! j)"
      using i(2) ok by (auto simp: nth_Cons split: nat.splits)
    then show ?thesis using i by (intro exI [of _ "Suc i"]) simp
  next
    case (Some r)
    with Cons.prems have "r = m" by simp
    with check_feature_Some [OF Some] show ?thesis by (intro exI [of _ 0]) simp
  qed
qed

lemma validate_geojson_iff: "\<not> fst (validate_geojson doc) \<longleftrightarrow> spec_violation doc"
proof (cases doc)
  case (JObj d)
  show ?thesis
  proof (cases "map_of d ''features''")
    case None
    then show ?thesis using JObj by (simp add: validate_geojson_def spec_violation_def)
  next
    case (Some v)
    show ?thesis
    proof (cases v)
      case (JArr fs)
      then show ?thesis using JObj Some
        by (auto simp: validate_geojson_def spec_violation_def spec_features_def
            spec_features_is_list_def validate_features_True spec_feature_ok_def list_ex_iff)
    qed (use JObj Some in \<open>simp_all add: validate_geojson_def spec_violation_def spec_features_is_list_def\<close>)
  qed
qed (simp_all add: validate_geojson_def spec_violation_def)

lemma validate_geojson_True_msg:
  "fst (validate_geojson doc) \<Longrightarrow> validate_geojson doc = (True, ''Valid GeoJSON'')"
  by (auto simp: validate_geojson_def validate_features_msg_True split: json.splits option.splits if_splits)

text \<open>
  C3. The Validator fails exactly on the listed violations: the value is not an object,
  its type is not "FeatureCollection", the features key is absent, features is not a
  list, features is empty, an element is not an object, an element's type is not
  "Feature", an element has no geometry key. A FeatureCollection with a non-empty list
  of features that each have type "Feature" and a geometry key is accepted with the
  message "Valid GeoJSON", whatever the geometry values are (null included, since only
  the presence of the key is asked). When a feature is at fault, the reason names the
  first offending index: every feature before it is in order, and the message is the
  one of the first check that feature fails.
\<close>

theorem validate_geojson_spec:
  "(\<not> fst (validate_geojson doc) \<longleftrightarrow> spec_violation doc)
   \<and> (\<not> spec_violation doc \<longrightarrow> validate_geojson doc = (True, ''Valid GeoJSON''))
   \<and> (obj_get doc ''type'' = Some (JStr ''FeatureCollection'')
        \<and> obj_get doc ''features'' = Some (JArr fs) \<and> fs \<noteq> []
        \<and> (\<forall>f \<in> set fs. spec_feature_ok f)
      \<longrightarrow> validate_geojson doc = (True, ''Valid GeoJSON''))
   \<and> (obj_get doc ''type'' = Some (JStr ''FeatureCollection'')
        \<and> obj_get doc ''features'' = Some (JArr fs) \<and> fs \<noteq> []
        \<and> validate_geojson doc = (False, m)
      \<longrightarrow> (\<exists>i < length fs. (\<forall>j < i. spec_feature_ok (fs ! j))
            \<and> \<not> spec_feature_ok (fs ! i) \<and> m = feature_reason i (fs ! i)))"
proof (intro conjI impI)
  show iff: "(\<not> fst (validate_geojson doc)) = spec_violation doc"
    by (rule validate_geojson_iff)
  show "validate_geojson doc = (True, ''Valid GeoJSON'')" if "\<not> spec_violation doc"
    using that iff validate_geojson_True_msg by blast
  show "validate_geojson doc = (True, ''Valid GeoJSON'')"
    if h: "obj_get doc ''type'' = Some (JStr ''FeatureCollection'')
        \<and> obj_get doc ''features'' = Some (JArr fs) \<and> fs \<noteq> []
        \<and> (\<forall>f \<in> set fs. spec_feature_ok f)"
  proof -
    from h obtain d where d: "doc = JObj d" by (cases doc) auto
    from h have "fst (validate_features 0 fs)" by (simp add: validate_features_True)
    then have "validate_features 0 fs = (True, ''Valid GeoJSON'')"
      by (rule validate_features_msg_True)
    with h d show ?thesis by (simp add: validate_geojson_def)
  qed
  show "\<exists>i < length fs. (\<forall>j < i. spec_feature_ok (fs ! j))
            \<and> \<not> spec_feature_ok (fs ! i) \<and> m = feature_reason i (fs ! i)"
    if h: "obj_get doc ''type'' = Some (JStr ''FeatureCollection'')
        \<and> obj_get doc ''features'' = Some (JArr fs) \<and> fs \<noteq> []
        \<and> validate_geojson doc = (False, m)"
  proof -
    from h obtain d where d: "doc = JObj d" by (cases doc) auto
    from h d have "validate_features 0 fs = (False, m)" by (auto simp: validate_geojson_def)
    from validate_features_first [OF this] show ?thesis by simp
  qed
qed

theorem validate_geojson_spec_witness:
  "validate_geojson doc_null_geometry = (True, ''Valid GeoJSON'')
   \<and> \<not> spec_violation doc_null_geometry
   \<and> validate_geojson doc_fourth_bad = (False, ''Feature 3 missing geometry'')
   \<and> (\<exists>i < length features_fourth_bad.
         (\<forall>j < i. spec_feature_ok (features_fourth_bad ! j))
         \<and> \<not> spec_feature_ok (features_fourth_bad ! i)
         \<and> ''Feature 3 missing geometry'' = feature_reason i (features_fourth_bad ! i))"
proof -
  have t: "obj_get doc_null_geometry ''type'' = Some (JStr ''FeatureCollection'')"
    by code_simp
  have f: "obj_get doc_null_geometry ''features'' = Some (JArr [feature_null_geometry])"
    by code_simp
  have ok: "\<forall>f \<in> set [feature_null_geometry]. spec_feature_ok f"
    by code_simp
  have a: "validate_geojson doc_null_geometry = (True, ''Valid GeoJSON'')"
    using validate_geojson_spec [of doc_null_geometry "[feature_null_geometry]"] t f ok
    by blast
  then have b: "\<not> spec_violation doc_null_geometry"
    using validate_geojson_spec [of doc_null_geometry] by simp
  have t': "obj_get doc_fourth_bad ''type'' = Some (JStr ''FeatureCollection'')"
    by code_simp
  have f': "obj_get doc_fourth_bad ''features'' = Some (JArr features_fourth_bad)"
    by code_simp
  have ne: "features_fourth_bad \<noteq> []"
    by code_simp
  have c: "validate_geojson doc_fourth_bad = (False, ''Feature 3 missing geometry'')"
    by code_simp
  show ?thesis
    using a b c
      validate_geojson_spec [of doc_fourth_bad features_fourth_bad "''Feature 3 missing geometry''"]
      t' f' ne
    by blast
qed

subsection \<open>Runs of \<open>process_geojson_file\<close>\<close>

lemma fst_on_exception [simp]: "fst (on_exception x) = False"
  by (cases x) (simp_all add: on_exception_def)

lemma on_exception_not_True [simp]: "on_exception x \<noteq> (True, m)"
  by (cases x) (simp_all add: on_exception_def)

lemma get_db_connection_cases:
  "get_db_connection e s =
     (if db_engine s then (s, None)
      else case secret_engine e of
             Some x \<Rightarrow> (s\<lparr>trace := trace s @ [GetSecret]\<rparr>, Some x)
           | None \<Rightarrow> (s\<lparr>db_engine := True, trace := trace s @ [GetSecret, EnsurePostgis]\<rparr>,
                       ensure_postgis e))"
  by (simp add: get_db_connection_def emit_def Let_def split: option.splits)

lemma process_success_iff:
  "process_geojson_file e s bucket k = (s', (True, m)) \<longleftrightarrow>
   (\<exists>content doc g0.
      get_object e bucket k = Inr content
      \<and> json_loads e content = Inr doc
      \<and> fst (validate_geojson doc)
      \<and> read_file e (s3_url bucket k) = Inr g0
      \<and> (db_engine s \<or> (secret_engine e = None \<and> ensure_postgis e = None))
      \<and> to_postgis_exn e (table_name_of k) (add_metadata e k g0) = None
      \<and> m = ''Processed '' @ str_nat (length g0) @ '' features''
      \<and> s' = s\<lparr>db_engine := True,
               tables := put (table_name_of k) (add_metadata e k g0) (tables s),
               trace := trace s @ success_trace s bucket k\<rparr>)"
  by (auto simp: process_geojson_file_def get_db_connection_cases to_postgis_def emit_def
      success_trace_def Let_def add_metadata_def set_column_def
      split: sum.splits prod.splits bool.splits option.splits)

lemma map_of_put_same [simp]: "map_of (put col v r) col = Some v"
  by (induction r) auto

lemma map_of_put_other [simp]: "c \<noteq> col \<Longrightarrow> map_of (put col v r) c = map_of r c"
  by (induction r) auto

lemma add_metadata_cells:
  "r \<in> set (add_metadata e k g0) \<Longrightarrow>
     map_of r ''processing_id'' = Some (CStr (uuid4 e))
     \<and> map_of r ''processed_at'' = Some (CTime (utcnow e))
     \<and> map_of r ''file_source'' = Some (CStr k)"
  by (auto simp: add_metadata_def set_column_def)

lemma length_add_metadata [simp]: "length (add_metadata e k g0) = length g0"
  by (simp add: add_metadata_def set_column_def)

lemma count_uuid4_success_trace: "count_list (success_trace s bucket k) Uuid4 = 1"
  by (simp add: success_trace_def)

subsection \<open>The destination table name\<close>

lemma all_chars: "(\<forall>c::char. P c) \<longleftrightarrow> list_all P (map char_of [0..<256::nat])"
proof -
  have "(UNIV :: char set) = set (map char_of [0..<256::nat])"
    using UNIV_char_of_nat by auto
  then show ?thesis by (metis UNIV_I list_all_iff)
qed

lemma lower_char_spec: "lower_char c = spec_lower_case c"
proof -
  have "\<forall>c. lower_char c = spec_lower_case c"
    unfolding all_chars by code_simp
  then show ?thesis by simp
qed

lemma spec_lower_case_not_capital: "spec_lower_case c \<notin> set spec_capitals"
proof -
  have "\<forall>c. spec_lower_case c \<notin> set spec_capitals"
    unfolding all_chars by code_simp
  then show ?thesis by simp
qed

lemma spec_lower_case_separator:
  assumes "spec_lower_case c \<in> set spec_separators"
  shows "c \<in> set spec_separators"
proof -
  have "\<forall>c. spec_lower_case c \<in> set spec_separators \<longrightarrow> c \<in> set spec_separators"
    unfolding all_chars by code_simp
  with assms show ?thesis by blast
qed

lemma replace_chain:
  "replace_char CHR ''-'' CHR ''_''
     (replace_char CHR ''.'' CHR ''_'' (replace_char CHR ''/'' CHR ''_'' k))
   = map (\<lambda>c. if c \<in> set spec_separators then CHR ''_'' else c) k"
  by (auto simp: replace_char_def spec_separators_def)

lemma lower_spec: "lower s = map spec_lower_case s"
  by (simp add: lower_def lower_char_spec)

lemma table_name_of_eq_spec: "table_name_of k = spec_deriveTableName k"
  by (simp only: table_name_of_def spec_deriveTableName_def replace_chain lower_spec)

lemma prefix_no_separator: "d \<in> set ''geojson_'' \<Longrightarrow> d \<notin> set spec_separators"
  by (auto simp: spec_separators_def)

lemma replaced_no_separator:
  "(if c \<in> set spec_separators then CHR ''_'' else c) \<notin> set spec_separators"
  by (simp add: spec_separators_def)

lemma table_name_chars:
  assumes "c \<in> set (spec_deriveTableName k)"
  shows "c \<notin> set spec_separators \<and> c \<notin> set spec_capitals"
proof -
  from assms have "c \<in> set (map spec_lower_case
       (''geojson_'' @ map (\<lambda>c. if c \<in> set spec_separators then CHR ''_'' else c) k))"
    unfolding spec_deriveTableName_def by (rule in_set_takeD)
  then obtain d where
    d: "d \<in> set (''geojson_'' @ map (\<lambda>c. if c \<in> set spec_separators then CHR ''_'' else c) k)"
    and c: "c = spec_lower_case d"
    unfolding set_map by blast
  from d have "d \<in> set ''geojson_''
      \<or> (\<exists>x. d = (if x \<in> set spec_separators then CHR ''_'' else x))"
    unfolding set_append set_map by blast
  then have "d \<notin> set spec_separators"
    using prefix_no_separator [of d] replaced_no_separator by metis
  with c show ?thesis
    using spec_lower_case_separator [of d] spec_lower_case_not_capital [of d] by blast
qed

text \<open>
  C4. The table name derived from an object key is the key with each of the characters
  slash, dot and hyphen replaced by an underscore, prefixed with "geojson_", lower-cased
  and cut to at most 63 characters: it has at most 63 characters, none of them a
  separator or a capital letter. The name is computed from the key alone, so a run that
  succeeds, in whatever state and surroundings, writes to the table of that name.
\<close>

theorem table_name_of_spec:
  "table_name_of k = spec_deriveTableName k
   \<and> length (table_name_of k) \<le> 63
   \<and> (\<forall>c \<in> set (table_name_of k). c \<notin> set spec_separators \<and> c \<notin> set spec_capitals)
   \<and> (process_geojson_file e s bucket k = (s', (True, m)) \<longrightarrow>
        last (trace s') = ToPostgis (spec_deriveTableName k)
        \<and> map_of (tables s') (spec_deriveTableName k) \<noteq> None)"
proof (intro conjI impI ballI)
  show "table_name_of k = spec_deriveTableName k" by (rule table_name_of_eq_spec)
  show "length (table_name_of k) \<le> 63" by (simp add: table_name_of_def)
  show "c \<notin> set spec_separators" if "c \<in> set (table_name_of k)" for c
    using that table_name_chars [of c k] by (simp add: table_name_of_eq_spec)
  show "c \<notin> set spec_capitals" if "c \<in> set (table_name_of k)" for c
    using that table_name_chars [of c k] by (simp add: table_name_of_eq_spec)
  assume run: "process_geojson_file e s bucket k = (s', (True, m))"
  then obtain g0 where
    "s' = s\<lparr>db_engine := True,
             tables := put (table_name_of k) (add_metadata e k g0) (tables s),
             trace := trace s @ success_trace s bucket k\<rparr>"
    unfolding process_success_iff by blast
  then have "last (trace s') = ToPostgis (table_name_of k)"
    and "map_of (tables s') (table_name_of k) \<noteq> None"
    by (simp_all add: success_trace_def)
  then show "last (trace s') = ToPostgis (spec_deriveTableName k)"
    and "map_of (tables s') (spec_deriveTableName k) \<noteq> None"
    by (simp_all add: table_name_of_eq_spec)
qed


theorem table_name_of_spec_witness:
  "table_name_of long_key = ''geojson_data_sets_region_north_2024_06_30_parcels_and_boundarie''
   \<and> spec_deriveTableName long_key = ''geojson_data_sets_region_north_2024_06_30_parcels_and_boundarie''
   \<and> length long_key = 70
   \<and> length (table_name_of long_key) = 63
   \<and> last (trace (fst (process_geojson_file env_a state0 ''bkt'' long_key)))
       = ToPostgis ''geojson_data_sets_region_north_2024_06_30_parcels_and_boundarie''"
proof -
  have n: "table_name_of long_key = ''geojson_data_sets_region_north_2024_06_30_parcels_and_boundarie''"
    by code_simp
  have l: "length long_key = 70" by code_simp
  have run: "process_geojson_file env_a state0 ''bkt'' long_key
     = (fst (process_geojson_file env_a state0 ''bkt'' long_key), (True, ''Processed 1 features''))"
    by code_simp
  from table_name_of_spec [of long_key env_a state0 "''bkt''"
      "fst (process_geojson_file env_a state0 ''bkt'' long_key)" "''Processed 1 features''"] run
  have s: "table_name_of long_key = spec_deriveTableName long_key"
    and t: "last (trace (fst (process_geojson_file env_a state0 ''bkt'' long_key)))
       = ToPostgis (spec_deriveTableName long_key)"
    by blast+
  from n s have s': "spec_deriveTableName long_key
     = ''geojson_data_sets_region_north_2024_06_30_parcels_and_boundarie''" by simp
  have "length (table_name_of long_key) = 63" unfolding n by simp
  with n s' l t show ?thesis by simp
qed

text \<open>Scenario A of the specification, run on the model.\<close>

lemma scenario_a_run:
  "process_geojson_file env_a state0 ''bkt'' ''region/a.geojson'' =
     (\<lparr>db_engine = True,
       tables = [(''geojson_region_a_geojson'',
         [[(''name'', CJson (JStr ''x'')),
           (''geometry'', CJson (JObj [(''type'', JStr ''Point''), (''coordinates'', JArr [JInt 1, JInt 2])])),
           (''file_source'', CStr ''region/a.geojson''),
           (''processed_at'', CTime 1000),
           (''processing_id'', CStr ''id-1'')]])],
       trace = [GetObject ''bkt'' ''region/a.geojson'', ReadFile ''s3://bkt/region/a.geojson'',
                UtcNow, Uuid4, GetSecret, EnsurePostgis, ToPostgis ''geojson_region_a_geojson'']\<rparr>,
      (True, ''Processed 1 features''))"
  by code_simp


lemma nth_add_metadata:
  "i < length g0 \<Longrightarrow>
   add_metadata e k g0 ! i
     = put ''processing_id'' (CStr (uuid4 e))
         (put ''processed_at'' (CTime (utcnow e))
           (put ''file_source'' (CStr k) (g0 ! i)))"
  by (simp add: add_metadata_def set_column_def)

text \<open>
  C9. A run that succeeds generates one processing identifier: among the external calls
  the run adds to the trace, the identifier call occurs once. The rows it leaves in its
  table are the rows of the frame read, one for one and in order, each with that one
  identifier under \<open>processing_id\<close> and the object key under \<open>file_source\<close>, and
  with every column other than the three metadata columns as it was read.
\<close>

theorem one_processing_id_per_run:
  assumes "process_geojson_file e s bucket k = (s', (True, m))"
  shows "\<exists>new g0 rows.
           trace s' = trace s @ new \<and> count_list new Uuid4 = 1
           \<and> read_file e (s3_url bucket k) = Inr g0
           \<and> map_of (tables s') (table_name_of k) = Some rows
           \<and> length rows = length g0
           \<and> (\<forall>i < length g0.
                 map_of (rows ! i) ''processing_id'' = Some (CStr (uuid4 e))
                 \<and> map_of (rows ! i) ''file_source'' = Some (CStr k)
                 \<and> (\<forall>col. col \<noteq> ''processing_id'' \<and> col \<noteq> ''processed_at''
                           \<and> col \<noteq> ''file_source''
                        \<longrightarrow> map_of (rows ! i) col = map_of (g0 ! i) col))"
proof -
  from assms obtain g0 where
    rf: "read_file e (s3_url bucket k) = Inr g0" and
    s': "s' = s\<lparr>db_engine := True,
               tables := put (table_name_of k) (add_metadata e k g0) (tables s),
               trace := trace s @ success_trace s bucket k\<rparr>"
    unfolding process_success_iff by blast
  have tr: "trace s' = trace s @ success_trace s bucket k"
    and tb: "map_of (tables s') (table_name_of k) = Some (add_metadata e k g0)"
    by (simp_all add: s')
  have cells: "map_of (add_metadata e k g0 ! i) ''processing_id'' = Some (CStr (uuid4 e))
       \<and> map_of (add_metadata e k g0 ! i) ''file_source'' = Some (CStr k)
       \<and> (\<forall>col. col \<noteq> ''processing_id'' \<and> col \<noteq> ''processed_at'' \<and> col \<noteq> ''file_source''
              \<longrightarrow> map_of (add_metadata e k g0 ! i) col = map_of (g0 ! i) col)"
    if "i < length g0" for i
    using that by (simp add: nth_add_metadata)
  show ?thesis
    using tr count_uuid4_success_trace [of s bucket k] rf tb length_add_metadata [of e k g0] cells
    by blast
qed

theorem one_processing_id_per_run_witness:
  "length gdf_replaced = 2
   \<and> map_of (tables (fst (process_geojson_file env_replaced state0 ''bkt'' ''region/a.geojson'')))
        ''geojson_region_a_geojson''
      = Some [[(''name'', CJson (JStr ''y'')), (''geometry'', CJson JNull),
               (''file_source'', CStr ''region/a.geojson''), (''processed_at'', CTime 1000),
               (''processing_id'', CStr ''id-1'')],
              [(''name'', CJson (JStr ''z'')), (''geometry'', CJson JNull),
               (''file_source'', CStr ''region/a.geojson''), (''processed_at'', CTime 1000),
               (''processing_id'', CStr ''id-1'')]]
   \<and> count_list (drop (length (trace state0))
         (trace (fst (process_geojson_file env_replaced state0 ''bkt'' ''region/a.geojson'')))) Uuid4 = 1"
proof -
  have run: "process_geojson_file env_replaced state0 ''bkt'' ''region/a.geojson''
        = (fst (process_geojson_file env_replaced state0 ''bkt'' ''region/a.geojson''),
           (True, ''Processed 2 features''))"
    by code_simp
  have rf: "read_file env_replaced (s3_url ''bkt'' ''region/a.geojson'') = Inr gdf_replaced"
    by code_simp
  have tn: "table_name_of ''region/a.geojson'' = ''geojson_region_a_geojson''" by code_simp
  have len: "length gdf_replaced = 2" by code_simp
  from one_processing_id_per_run [OF run] obtain new where
    tr: "trace (fst (process_geojson_file env_replaced state0 ''bkt'' ''region/a.geojson''))
           = trace state0 @ new" and
    cnt: "count_list new Uuid4 = 1"
    by (elim exE conjE) (rule that; assumption)
  have rows: "map_of (tables (fst (process_geojson_file env_replaced state0 ''bkt'' ''region/a.geojson'')))
        ''geojson_region_a_geojson''
      = Some [[(''name'', CJson (JStr ''y'')), (''geometry'', CJson JNull),
               (''file_source'', CStr ''region/a.geojson''), (''processed_at'', CTime 1000),
               (''processing_id'', CStr ''id-1'')],
              [(''name'', CJson (JStr ''z'')), (''geometry'', CJson JNull),
               (''file_source'', CStr ''region/a.geojson''), (''processed_at'', CTime 1000),
               (''processing_id'', CStr ''id-1'')]]"
    by code_simp
  from tr cnt have "count_list (drop (length (trace state0))
         (trace (fst (process_geojson_file env_replaced state0 ''bkt'' ''region/a.geojson'')))) Uuid4 = 1"
    by simp
  with len rows show ?thesis by blast
qed



text \<open>
  C5. When the downloaded text parses to a FeatureCollection whose features list is
  empty, the run returns failure with the message "No features in collection". The only
  external call it made is the download: the tables are as before, and no write, read of
  the frame or connection was attempted.
\<close>

theorem empty_collection_rejected:
  assumes "get_object e bucket k = Inr content"
    and "json_loads e content = Inr doc"
    and "obj_get doc ''type'' = Some (JStr ''FeatureCollection'')"
    and "obj_get doc ''features'' = Some (JArr [])"
  shows "process_geojson_file e s bucket k
           = (s\<lparr>trace := trace s @ [GetObject bucket k]\<rparr>, (False, ''No features in collection''))
         \<and> tables (fst (process_geojson_file e s bucket k)) = tables s
         \<and> trace (fst (process_geojson_file e s bucket k)) = trace s @ [GetObject bucket k]"
proof -
  from assms(3) obtain d where d: "doc = JObj d" by (cases doc) auto
  with assms(3,4) have "validate_geojson doc = (False, ''No features in collection'')"
    by (simp add: validate_geojson_def)
  with assms(1,2) show ?thesis
    by (simp add: process_geojson_file_def emit_def)
qed

theorem empty_collection_rejected_witness:
  "process_geojson_file env_b state0 ''bkt'' ''region/a.geojson''
     = (state0\<lparr>trace := trace state0 @ [GetObject ''bkt'' ''region/a.geojson'']\<rparr>,
        (False, ''No features in collection''))
   \<and> tables (fst (process_geojson_file env_b state0 ''bkt'' ''region/a.geojson'')) = tables state0
   \<and> trace (fst (process_geojson_file env_b state0 ''bkt'' ''region/a.geojson''))
       = trace state0 @ [GetObject ''bkt'' ''region/a.geojson'']"
proof -
  have 1: "get_object env_b ''bkt'' ''region/a.geojson'' = Inr ''scenario A''" by code_simp
  have 2: "json_loads env_b ''scenario A'' = Inr doc_scenario_b" by code_simp
  have 3: "obj_get doc_scenario_b ''type'' = Some (JStr ''FeatureCollection'')" by code_simp
  have 4: "obj_get doc_scenario_b ''features'' = Some (JArr [])" by code_simp
  from empty_collection_rejected [OF 1 2 3 4] show ?thesis .
qed

lemma process_failure_after_validation:
  assumes "get_object e bucket k = Inr content"
    and "json_loads e content = Inr doc"
    and "fst (validate_geojson doc)"
    and "process_geojson_file e s bucket k = (s', (False, m))"
  shows "\<exists>x. on_exception x = (False, m)
     \<and> (read_file e (s3_url bucket k) = Inl x
        \<or> (\<exists>g0. read_file e (s3_url bucket k) = Inr g0
             \<and> ((\<not> db_engine s \<and> secret_engine e = Some x)
                \<or> (\<not> db_engine s \<and> secret_engine e = None \<and> ensure_postgis e = Some x)
                \<or> ((db_engine s \<or> (secret_engine e = None \<and> ensure_postgis e = None))
                    \<and> to_postgis_exn e (table_name_of k) (add_metadata e k g0) = Some x))))"
  using assms
  by (auto simp: process_geojson_file_def get_db_connection_cases to_postgis_def emit_def Let_def
      split: sum.splits prod.splits bool.splits option.splits if_splits)


text \<open>
  C6, as the code has it. When validation has passed and a later stage raises, be it
  the second read, the connection or the write, the run returns failure, and the message
  is the text of the exception after the prefix of the \<open>except\<close> branch that catches it:
  "Error processing file: " for every exception but a JSON decode error, and
  "Invalid JSON format: " for that one. No message names the load stage.
\<close>

theorem failure_after_validation_message:
  assumes "get_object e bucket k = Inr content"
    and "json_loads e content = Inr doc"
    and "fst (validate_geojson doc)"
    and "read_file e (s3_url bucket k) = Inl x
        \<or> (\<exists>g0. read_file e (s3_url bucket k) = Inr g0
             \<and> ((\<not> db_engine s \<and> secret_engine e = Some x)
                \<or> (\<not> db_engine s \<and> secret_engine e = None \<and> ensure_postgis e = Some x)
                \<or> ((db_engine s \<or> (secret_engine e = None \<and> ensure_postgis e = None))
                    \<and> to_postgis_exn e (table_name_of k) (add_metadata e k g0) = Some x)))"
  shows "snd (process_geojson_file e s bucket k)
         = (False, (case x of
                      OtherError cause \<Rightarrow> ''Error processing file: '' @ cause
                    | JSONDecodeError cause \<Rightarrow> ''Invalid JSON format: '' @ cause))"
proof -
  obtain v where v: "validate_geojson doc = (True, v)"
    using assms(3) by (cases "validate_geojson doc") auto
  have oe: "on_exception x = (False, (case x of
                      OtherError cause \<Rightarrow> ''Error processing file: '' @ cause
                    | JSONDecodeError cause \<Rightarrow> ''Invalid JSON format: '' @ cause))"
    by (cases x) (simp_all add: on_exception_def)
  from assms(4) have "snd (process_geojson_file e s bucket k) = on_exception x"
    using assms(1,2) v
    by (auto simp: process_geojson_file_def get_db_connection_cases to_postgis_def emit_def Let_def
        split: option.splits)
  with oe show ?thesis by simp
qed

theorem failure_after_validation_message_witness:
  "snd (process_geojson_file env_store_down state0 ''bkt'' ''region/a.geojson'')
     = (False, ''Error processing file: connection refused'')"
proof -
  have 1: "get_object env_store_down ''bkt'' ''region/a.geojson'' = Inr ''scenario A''" by code_simp
  have 2: "json_loads env_store_down ''scenario A'' = Inr doc_scenario_a" by code_simp
  have 3: "fst (validate_geojson doc_scenario_a)" by code_simp
  have r: "read_file env_store_down (s3_url ''bkt'' ''region/a.geojson'') = Inr gdf_scenario_a"
    by code_simp
  have c: "db_engine state0 \<or> (secret_engine env_store_down = None \<and> ensure_postgis env_store_down = None)"
    by code_simp
  have w: "to_postgis_exn env_store_down (table_name_of ''region/a.geojson'')
             (add_metadata env_store_down ''region/a.geojson'' gdf_scenario_a)
           = Some (OtherError ''connection refused'')"
    by code_simp
  from r c w have 4: "read_file env_store_down (s3_url ''bkt'' ''region/a.geojson'')
          = Inl (OtherError ''connection refused'')
        \<or> (\<exists>g0. read_file env_store_down (s3_url ''bkt'' ''region/a.geojson'') = Inr g0
             \<and> ((\<not> db_engine state0 \<and> secret_engine env_store_down = Some (OtherError ''connection refused''))
                \<or> (\<not> db_engine state0 \<and> secret_engine env_store_down = None
                      \<and> ensure_postgis env_store_down = Some (OtherError ''connection refused''))
                \<or> ((db_engine state0 \<or> (secret_engine env_store_down = None \<and> ensure_postgis env_store_down = None))
                    \<and> to_postgis_exn env_store_down (table_name_of ''region/a.geojson'')
                         (add_metadata env_store_down ''region/a.geojson'' g0)
                       = Some (OtherError ''connection refused''))))"
    by blast
  from failure_after_validation_message [OF 1 2 3 4] show ?thesis by simp
qed

text \<open>
  C6 as stated fails: with a valid document and a store that refuses the write with
  "connection refused", the message is "Error processing file: connection refused", not
  "load error: connection refused".
\<close>

theorem load_error_message_counterexample:
  "get_object env_store_down ''bkt'' ''region/a.geojson'' = Inr ''scenario A''
   \<and> json_loads env_store_down ''scenario A'' = Inr doc_scenario_a
   \<and> validate_geojson doc_scenario_a = (True, ''Valid GeoJSON'')
   \<and> to_postgis_exn env_store_down (table_name_of ''region/a.geojson'')
        (add_metadata env_store_down ''region/a.geojson'' gdf_scenario_a)
      = Some (OtherError ''connection refused'')
   \<and> snd (process_geojson_file env_store_down state0 ''bkt'' ''region/a.geojson'')
      = (False, ''Error processing file: connection refused'')
   \<and> snd (process_geojson_file env_store_down state0 ''bkt'' ''region/a.geojson'')
      \<noteq> (False, ''load error: '' @ ''connection refused'')"
  by code_simp

text \<open>
  C2. For a source that downloads, parses, validates and reads into a frame, with a
  store that connects and accepts the writes, two runs over the same source both
  succeed with the same message, which states the number of rows of the frame. After
  the first run the table of the key holds the rows of the first run; after the second
  it holds the rows of the second run and nothing else: as many rows as the frame has,
  and, the two identifiers differing, none of the rows of the first run.
\<close>

theorem reprocessing_replaces:
  assumes src: "get_object e1 bucket k = Inr content" "json_loads e1 content = Inr doc"
      "fst (validate_geojson doc)" "read_file e1 (s3_url bucket k) = Inr g0"
    and conn: "db_engine s0 \<or> (secret_engine e1 = None \<and> ensure_postgis e1 = None)"
    and w1: "to_postgis_exn e1 (table_name_of k) (add_metadata e1 k g0) = None"
    and w2: "to_postgis_exn e2 (table_name_of k) (add_metadata e2 k g0) = None"
    and same: "get_object e2 = get_object e1" "json_loads e2 = json_loads e1"
      "read_file e2 = read_file e1"
  shows "\<exists>s1 s2 m.
           process_geojson_file e1 s0 bucket k = (s1, (True, m))
           \<and> process_geojson_file e2 s1 bucket k = (s2, (True, m))
           \<and> m = ''Processed '' @ str_nat (length g0) @ '' features''
           \<and> map_of (tables s1) (table_name_of k) = Some (add_metadata e1 k g0)
           \<and> map_of (tables s2) (table_name_of k) = Some (add_metadata e2 k g0)
           \<and> length (add_metadata e2 k g0) = length g0
           \<and> (uuid4 e2 \<noteq> uuid4 e1 \<longrightarrow>
                (\<forall>r \<in> set (add_metadata e1 k g0). r \<notin> set (add_metadata e2 k g0)))"
proof -
  define m where "m = ''Processed '' @ str_nat (length g0) @ '' features''"
  define s1 where "s1 = s0\<lparr>db_engine := True,
             tables := put (table_name_of k) (add_metadata e1 k g0) (tables s0),
             trace := trace s0 @ success_trace s0 bucket k\<rparr>"
  define s2 where "s2 = s1\<lparr>db_engine := True,
             tables := put (table_name_of k) (add_metadata e2 k g0) (tables s1),
             trace := trace s1 @ success_trace s1 bucket k\<rparr>"
  have r1: "process_geojson_file e1 s0 bucket k = (s1, (True, m))"
    unfolding process_success_iff using src conn w1 by (simp add: m_def s1_def)
  have "db_engine s1" by (simp add: s1_def)
  then have r2: "process_geojson_file e2 s1 bucket k = (s2, (True, m))"
    unfolding process_success_iff using src w2 same by (simp add: m_def s2_def)
  have t1: "map_of (tables s1) (table_name_of k) = Some (add_metadata e1 k g0)"
    by (simp add: s1_def)
  have t2: "map_of (tables s2) (table_name_of k) = Some (add_metadata e2 k g0)"
    by (simp add: s2_def)
  have d: "r \<notin> set (add_metadata e2 k g0)"
    if "uuid4 e2 \<noteq> uuid4 e1" "r \<in> set (add_metadata e1 k g0)" for r
    using that add_metadata_cells [of r e1 k g0] add_metadata_cells [of r e2 k g0] by auto
  show ?thesis using r1 r2 t1 t2 d m_def by (intro exI [of _ s1] exI [of _ s2] exI [of _ m]) simp
qed

theorem reprocessing_replaces_witness:
  "snd (process_geojson_file env_a state0 ''bkt'' ''region/a.geojson'')
     = (True, ''Processed 1 features'')
   \<and> snd (process_geojson_file env_a_again
            (fst (process_geojson_file env_a state0 ''bkt'' ''region/a.geojson''))
            ''bkt'' ''region/a.geojson'')
     = (True, ''Processed 1 features'')
   \<and> map_of (tables (fst (process_geojson_file env_a_again
            (fst (process_geojson_file env_a state0 ''bkt'' ''region/a.geojson''))
            ''bkt'' ''region/a.geojson''))) ''geojson_region_a_geojson''
     = Some [[(''name'', CJson (JStr ''x'')),
              (''geometry'', CJson (JObj [(''type'', JStr ''Point''),
                                          (''coordinates'', JArr [JInt 1, JInt 2])])),
              (''file_source'', CStr ''region/a.geojson''),
              (''processed_at'', CTime 2000),
              (''processing_id'', CStr ''id-2'')]]"
proof -
  have 1: "get_object env_a ''bkt'' ''region/a.geojson'' = Inr ''scenario A''" by code_simp
  have 2: "json_loads env_a ''scenario A'' = Inr doc_scenario_a" by code_simp
  have 3: "fst (validate_geojson doc_scenario_a)" by code_simp
  have 4: "read_file env_a (s3_url ''bkt'' ''region/a.geojson'') = Inr gdf_scenario_a" by code_simp
  have 5: "db_engine state0 \<or> (secret_engine env_a = None \<and> ensure_postgis env_a = None)"
    by code_simp
  have 6: "to_postgis_exn env_a (table_name_of ''region/a.geojson'')
             (add_metadata env_a ''region/a.geojson'' gdf_scenario_a) = None" by code_simp
  have 7: "to_postgis_exn env_a_again (table_name_of ''region/a.geojson'')
             (add_metadata env_a_again ''region/a.geojson'' gdf_scenario_a) = None" by code_simp
  have 8: "get_object env_a_again = get_object env_a" by (simp add: env_a_again_def)
  have 9: "json_loads env_a_again = json_loads env_a" by (simp add: env_a_again_def)
  have 10: "read_file env_a_again = read_file env_a" by (simp add: env_a_again_def)
  from reprocessing_replaces [OF 1 2 3 4 5 6 7 8 9 10] obtain s1 s2 m where
    r1: "process_geojson_file env_a state0 ''bkt'' ''region/a.geojson'' = (s1, (True, m))" and
    r2: "process_geojson_file env_a_again s1 ''bkt'' ''region/a.geojson'' = (s2, (True, m))" and
    m: "m = ''Processed '' @ str_nat (length gdf_scenario_a) @ '' features''" and
    t2: "map_of (tables s2) (table_name_of ''region/a.geojson'')
           = Some (add_metadata env_a_again ''region/a.geojson'' gdf_scenario_a)"
    by blast
  have m': "str_nat (length gdf_scenario_a) = ''1''"
    by code_simp
  have tn: "table_name_of ''region/a.geojson'' = ''geojson_region_a_geojson''"
    by code_simp
  have rows: "add_metadata env_a_again ''region/a.geojson'' gdf_scenario_a
     = [[(''name'', CJson (JStr ''x'')),
         (''geometry'', CJson (JObj [(''type'', JStr ''Point''),
                                     (''coordinates'', JArr [JInt 1, JInt 2])])),
         (''file_source'', CStr ''region/a.geojson''),
         (''processed_at'', CTime 2000),
         (''processing_id'', CStr ''id-2'')]]"
    by code_simp
  show ?thesis using r1 r2 t2 by (simp add: m m' tn rows)
qed

section \<open>Properties of the dispatcher\<close>

lemma run_ecs_task_Inr:
  "run_ecs_task le att bucket k = (att', Inr response) \<Longrightarrow> att' = att @ [(bucket, k)]"
  by (auto simp: run_ecs_task_def Let_def split: sum.splits if_splits)

lemma run_ecs_task_Inl:
  "run_ecs_task le att bucket k = (att', Inl m) \<Longrightarrow> att' = att \<or> att' = att @ [(bucket, k)]"
  by (auto simp: run_ecs_task_def Let_def split: sum.splits if_splits)

lemma handler_loop_append:
  "handler_loop le att (xs @ ys) =
     (case handler_loop le att xs of
        (att', None) \<Rightarrow> handler_loop le att' ys
      | (att', Some m) \<Rightarrow> (att', Some m))"
  by (induction xs arbitrary: att) (auto simp: Let_def split: prod.splits sum.splits)

lemma handler_loop_None:
  "handler_loop le att records = (att', None) \<Longrightarrow> att' = att @ qualifying le records"
proof (induction records arbitrary: att)
  case Nil
  then show ?case by (simp add: qualifying_def)
next
  case (Cons r rs)
  show ?case
  proof (cases "is_geojson_key (unquote_plus le (object_key r))")
    case False
    with Cons.prems have "handler_loop le att rs = (att', None)" by simp
    from Cons.IH [OF this] False show ?thesis by (simp add: qualifying_def)
  next
    case True
    obtain a res where run: "run_ecs_task le att (bucket_name r) (unquote_plus le (object_key r)) = (a, res)"
      by (cases "run_ecs_task le att (bucket_name r) (unquote_plus le (object_key r))")
    with Cons.prems True obtain response where res: "res = Inr response"
      and rest: "handler_loop le a rs = (att', None)"
      by (cases res) (auto simp: Let_def)
    from run res have a: "a = att @ [(bucket_name r, unquote_plus le (object_key r))]"
      by (simp add: run_ecs_task_Inr)
    from Cons.IH [OF rest] a True show ?thesis by (simp add: qualifying_def)
  qed
qed

text \<open>
  C1, as the code has it. The loop runs inside one \<open>try\<close>: dispatch is attempted for the
  qualifying keys in batch order up to the first launch that raises. There the handler
  stops and returns status 500 with the text of that error; the launches attempted are
  those of the qualifying keys before it, and at most the failing one after them. The
  notifications that follow play no part in the result: none of them is attempted.
\<close>

theorem launch_error_stops_batch:
  assumes "handler_loop le [] before = (att1, None)"
    and "is_geojson_key (unquote_plus le (object_key r))"
    and "run_ecs_task le att1 (bucket_name r) (unquote_plus le (object_key r)) = (att2, Inl m)"
  shows "handler le (before @ r # after)
           = (att2, \<lparr>statusCode = 500, body = ErrorBody m (aws_request_id le)\<rparr>)
         \<and> att1 = qualifying le before
         \<and> (att2 = att1 \<or> att2 = att1 @ [(bucket_name r, unquote_plus le (object_key r))])"
proof -
  have "handler_loop le att1 (r # after) = (att2, Some m)"
    using assms(2,3) by (simp add: Let_def)
  with assms(1) have "handler_loop le [] (before @ r # after) = (att2, Some m)"
    by (simp add: handler_loop_append)
  then have "handler le (before @ r # after)
           = (att2, \<lparr>statusCode = 500, body = ErrorBody m (aws_request_id le)\<rparr>)"
    by (simp add: handler_def)
  moreover from handler_loop_None [OF assms(1)] have "att1 = qualifying le before" by simp
  moreover note run_ecs_task_Inl [OF assms(3)]
  ultimately show ?thesis by blast
qed

theorem launch_error_stops_batch_witness:
  "handler lambda_env_first_fails ([] @ rec_a # [rec_b])
     = ([(''bkt'', ''a.geojson'')],
        \<lparr>statusCode = 500,
         body = ErrorBody ''ECS task failed to start: [{'reason': 'RESOURCE:MEMORY'}]'' (aws_request_id lambda_env_first_fails)\<rparr>)
   \<and> [] = qualifying lambda_env_first_fails []"
proof -
  have 1: "handler_loop lambda_env_first_fails [] [] = ([], None)" by simp
  have 2: "is_geojson_key (unquote_plus lambda_env_first_fails (object_key rec_a))" by code_simp
  have 3: "run_ecs_task lambda_env_first_fails [] (bucket_name rec_a)
             (unquote_plus lambda_env_first_fails (object_key rec_a))
           = ([(''bkt'', ''a.geojson'')], Inl ''ECS task failed to start: [{'reason': 'RESOURCE:MEMORY'}]'')"
    by code_simp
  from launch_error_stops_batch [OF 1 2 3, of "[rec_b]"] show ?thesis by simp
qed

text \<open>
  C1 as stated fails: in a batch of two qualifying keys where ECS answers the first
  launch with a failure, the second key is never attempted, although its launch would
  have been accepted.
\<close>

theorem later_key_not_attempted_counterexample:
  "is_geojson_key (unquote_plus lambda_env_first_fails (object_key rec_b))
   \<and> fst (handler lambda_env_first_fails [rec_a, rec_b]) = [(''bkt'', ''a.geojson'')]
   \<and> (''bkt'', ''b.geojson'') \<notin> set (fst (handler lambda_env_first_fails [rec_a, rec_b]))
   \<and> snd (handler lambda_env_first_fails [rec_a, rec_b])
       = \<lparr>statusCode = 500, body = ErrorBody ''ECS task failed to start: [{'reason': 'RESOURCE:MEMORY'}]'' ''req-1''\<rparr>
   \<and> fst (handler lambda_env_ok [rec_a, rec_b]) = [(''bkt'', ''a.geojson''), (''bkt'', ''b.geojson'')]"
  by code_simp

lemma run_ecs_task_ok:
  assumes "environ le ''ECS_CLUSTER_NAME'' \<noteq> None" "environ le ''ECS_TASK_DEFINITION'' \<noteq> None"
    "environ le ''ECS_SUBNETS'' \<noteq> None" "environ le ''ECS_SECURITY_GROUPS'' \<noteq> None"
    and "run_task le att bucket k = Inr r" "failures r = []"
  shows "run_ecs_task le att bucket k = (att @ [(bucket, k)], Inr r)"
  using assms by (auto simp: run_ecs_task_def environ_get_def Let_def)

lemma handler_loop_all_ok:
  assumes env: "environ le ''ECS_CLUSTER_NAME'' \<noteq> None" "environ le ''ECS_TASK_DEFINITION'' \<noteq> None"
    "environ le ''ECS_SUBNETS'' \<noteq> None" "environ le ''ECS_SECURITY_GROUPS'' \<noteq> None"
    and ok: "\<forall>i < length (qualifying le records).
        \<exists>r. run_task le (att @ take i (qualifying le records))
               (fst (qualifying le records ! i)) (snd (qualifying le records ! i)) = Inr r
            \<and> failures r = []"
  shows "handler_loop le att records = (att @ qualifying le records, None)"
  using ok
proof (induction records arbitrary: att)
  case Nil
  show ?case by (simp add: qualifying_def)
next
  case (Cons rec rest)
  show ?case
  proof (cases "is_geojson_key (unquote_plus le (object_key rec))")
    case False
    then have q: "qualifying le (rec # rest) = qualifying le rest" by (simp add: qualifying_def)
    from Cons.prems have "handler_loop le att rest = (att @ qualifying le rest, None)"
      unfolding q by (rule Cons.IH)
    with False q show ?thesis by simp
  next
    case True
    let ?b = "bucket_name rec" and ?k = "unquote_plus le (object_key rec)"
    from True have q: "qualifying le (rec # rest) = (?b, ?k) # qualifying le rest"
      by (simp add: qualifying_def)
    from Cons.prems [unfolded q, rule_format, of 0] obtain r where
      r: "run_task le att ?b ?k = Inr r" "failures r = []" by auto
    have run: "run_ecs_task le att ?b ?k = (att @ [(?b, ?k)], Inr r)"
      using env r by (rule run_ecs_task_ok)
    have "\<forall>i < length (qualifying le rest).
        \<exists>r. run_task le ((att @ [(?b, ?k)]) @ take i (qualifying le rest))
               (fst (qualifying le rest ! i)) (snd (qualifying le rest ! i)) = Inr r
            \<and> failures r = []"
    proof (intro allI impI)
      fix i assume "i < length (qualifying le rest)"
      with Cons.prems [unfolded q, rule_format, of "Suc i"] show
        "\<exists>r. run_task le ((att @ [(?b, ?k)]) @ take i (qualifying le rest))
               (fst (qualifying le rest ! i)) (snd (qualifying le rest ! i)) = Inr r
            \<and> failures r = []" by simp
    qed
    then have "handler_loop le (att @ [(?b, ?k)]) rest
        = ((att @ [(?b, ?k)]) @ qualifying le rest, None)" by (rule Cons.IH)
    with True run q show ?thesis by (simp add: Let_def)
  qed
qed

text \<open>
  C8, as the code has it. When the four environment variables are set and ECS
  acknowledges every launch of the batch without failures, the handler returns status
  200 and reports one count, the number of notifications received, in the message
  "Successfully processed N files"; the launches attempted are exactly the qualifying
  keys, in batch order, the other keys being passed over without error. The numbers
  dispatched and skipped are not part of the report.
\<close>

theorem report_counts_received_only:
  assumes "environ le ''ECS_CLUSTER_NAME'' \<noteq> None" "environ le ''ECS_TASK_DEFINITION'' \<noteq> None"
    "environ le ''ECS_SUBNETS'' \<noteq> None" "environ le ''ECS_SECURITY_GROUPS'' \<noteq> None"
    and "\<forall>i < length (qualifying le records).
        \<exists>r. run_task le (take i (qualifying le records))
               (fst (qualifying le records ! i)) (snd (qualifying le records ! i)) = Inr r
            \<and> failures r = []"
  shows "handler le records
         = (qualifying le records,
            \<lparr>statusCode = 200,
             body = MessageBody
               (''Successfully processed '' @ str_nat (length records) @ '' files'')
               (aws_request_id le)\<rparr>)"
proof -
  have "handler_loop le [] records = ([] @ qualifying le records, None)"
    using assms by (intro handler_loop_all_ok) simp_all
  then show ?thesis by (simp add: handler_def)
qed

theorem report_counts_received_only_witness:
  "handler lambda_env_ok [rec_a, rec_txt, rec_c]
     = ([(''bkt'', ''a.geojson''), (''bkt'', ''c.geojson'')],
        \<lparr>statusCode = 200, body = MessageBody ''Successfully processed 3 files'' ''req-1''\<rparr>)"
proof -
  have 1: "environ lambda_env_ok ''ECS_CLUSTER_NAME'' \<noteq> None" by code_simp
  have 2: "environ lambda_env_ok ''ECS_TASK_DEFINITION'' \<noteq> None" by code_simp
  have 3: "environ lambda_env_ok ''ECS_SUBNETS'' \<noteq> None" by code_simp
  have 4: "environ lambda_env_ok ''ECS_SECURITY_GROUPS'' \<noteq> None" by code_simp
  have 5: "\<forall>i < length (qualifying lambda_env_ok [rec_a, rec_txt, rec_c]).
        \<exists>r. run_task lambda_env_ok (take i (qualifying lambda_env_ok [rec_a, rec_txt, rec_c]))
               (fst (qualifying lambda_env_ok [rec_a, rec_txt, rec_c] ! i))
               (snd (qualifying lambda_env_ok [rec_a, rec_txt, rec_c] ! i)) = Inr r
            \<and> failures r = []"
    by (simp add: lambda_env_ok_def)
  have q: "qualifying lambda_env_ok [rec_a, rec_txt, rec_c]
           = [(''bkt'', ''a.geojson''), (''bkt'', ''c.geojson'')]" by code_simp
  have m: "''Successfully processed '' @ str_nat (length [rec_a, rec_txt, rec_c]) @ '' files''
           = ''Successfully processed 3 files''" by code_simp
  have i: "aws_request_id lambda_env_ok = ''req-1''" by code_simp
  from report_counts_received_only [OF 1 2 3 4 5] show ?thesis
    unfolding q m i .
qed

text \<open>
  C8 as stated fails: for the batch of three notifications whose second key ends in
  \<open>.txt\<close>, two runs are launched, and the report is "Successfully processed 3 files", the
  same report as for a batch of three GeoJSON keys, of which three are launched.
\<close>

theorem report_without_dispatch_counts_counterexample:
  "snd (handler lambda_env_ok [rec_a, rec_txt, rec_c])
     = \<lparr>statusCode = 200, body = MessageBody ''Successfully processed 3 files'' ''req-1''\<rparr>
   \<and> length (fst (handler lambda_env_ok [rec_a, rec_txt, rec_c])) = 2
   \<and> length (fst (handler lambda_env_ok [rec_a, rec_b, rec_c])) = 3
   \<and> snd (handler lambda_env_ok [rec_a, rec_b, rec_c])
     = snd (handler lambda_env_ok [rec_a, rec_txt, rec_c])"
  by code_simp

text \<open>
  C7 at the key \<open>logs/a.geojson\<close>: \<open>validate_geojson_key\<close> rejects it as a file in a
  system folder, and the handler, which never calls that function, launches a run for it.
\<close>

theorem system_folder_key_dispatched:
  "validate_geojson_key ''logs/a.geojson'' = (False, ''File in system folder: logs'')
   \<and> handler lambda_env_ok [rec_logs]
     = ([(''bkt'', ''logs/a.geojson'')],
        \<lparr>statusCode = 200, body = MessageBody ''Successfully processed 1 files'' ''req-1''\<rparr>)"
  by code_simp

end
